theory Spec2Isabelle
  imports
    Complex_Main
    "HOL-Library.AList"
    "HOL-Library.Char_ord"
    "HOL-Library.List_Lexorder"
    "HOL-Library.Multiset"
begin

section \<open>Card manager: ledger and monthly aggregation\<close>

text \<open>
  A shallow embedding of \<^verbatim>\<open>app.py\<close>: the two tables (\<^verbatim>\<open>Card\<close>, \<^verbatim>\<open>Transaction\<close>), the
  request handlers \<^verbatim>\<open>add_transaction\<close>, \<^verbatim>\<open>delete_card\<close> and the monthly statistics
  computed by \<^verbatim>\<open>index\<close>.

  Scope of the model.
  \<^item> Amounts and balances are \<^verbatim>\<open>Float\<close> columns. The model keeps the number type as a
    parameter \<open>'a\<close>; the definitions use only \<open>0\<close>, \<open>+\<close> and \<open>-\<close> in the places where the
    source does. Rounding of IEEE doubles is not modelled. The statements about the fields of
    the month buckets are proved for every type with these operations, without any law of
    arithmetic; the statements about balances use that subtracting an amount is adding its
    negative; only the statements that regroup a sum (the sum of a sequence of deltas, the
    sums over all buckets) need exact arithmetic, and say so.
  \<^item> The handlers are modelled after the form fields have been parsed (lines 85-91 of
    \<^verbatim>\<open>add_transaction\<close>): the arguments are the parsed card id, kind string, amount,
    description, category and date.
  \<^item> The database is the pair of tables, in row order. \<^verbatim>\<open>db.session.commit()\<close> is modelled
    as succeeding; a failing commit of the storage layer is outside the model.
\<close>

subsection \<open>Tables\<close>

text \<open>
  \<^verbatim>\<open>Card.id\<close> and \<^verbatim>\<open>Transaction.id\<close> are the fields \<open>cid\<close> and \<open>tid\<close> (\<open>id\<close> is the identity
  function of HOL). \<^verbatim>\<open>card_type\<close> and \<^verbatim>\<open>transaction_type\<close> are strings, as in the source:
  nothing restricts them to the values named in the column comments.
\<close>

record 'a card =
  cid :: int
  name :: string
  card_type :: string
  balance :: 'a

record datetime =
  year :: nat
  month :: nat
  day :: nat

record 'a transaction =
  tid :: int
  card_id :: int
  transaction_type :: string
  amount :: 'a
  description :: string
  category :: string
  date :: datetime

record 'a database =
  cards :: "'a card list"
  transactions :: "'a transaction list"

datatype error =
  AttributeError
  | NotFound

subsection \<open>Storage primitives\<close>

text \<open>\<^verbatim>\<open>Card.query.get(card_id)\<close>: the row with that primary key, or \<^verbatim>\<open>None\<close>.\<close>

definition query_get :: "'a card list \<Rightarrow> int \<Rightarrow> 'a card option" where
  "query_get rows k = find (\<lambda>r. cid r = k) rows"

text \<open>
  Flushing a modified card object: \<^verbatim>\<open>UPDATE card SET ... WHERE id = ?\<close>.
\<close>

definition flush_card :: "'a card \<Rightarrow> 'a card list \<Rightarrow> 'a card list" where
  "flush_card c rows = map (\<lambda>r. if cid r = cid c then c else r) rows"

text \<open>
  The primary key given to an inserted transaction: one more than the largest key in the
  table, 1 for an empty table (the rowid rule of SQLite for an integer primary key); the
  same for cards.
\<close>

definition next_tid :: "'a transaction list \<Rightarrow> int" where
  "next_tid ts = fold max (map tid ts) 0 + 1"

definition next_cid :: "'a card list \<Rightarrow> int" where
  "next_cid rows = fold max (map cid rows) 0 + 1"

subsection \<open>\<^verbatim>\<open>add_card\<close> (POST)\<close>

text \<open>
  Lines 70-76: the card is stored with the name, kind string and balance of the form; the
  kind string is not checked.
\<close>

definition add_card :: "'a database \<Rightarrow> string \<Rightarrow> string \<Rightarrow> 'a \<Rightarrow> 'a database" where
  "add_card s name' card_type' balance' =
     s\<lparr>cards := cards s @
          [\<lparr>cid = next_cid (cards s), name = name', card_type = card_type',
            balance = balance'\<rparr>]\<rparr>"

subsection \<open>\<^verbatim>\<open>add_transaction\<close> (POST)\<close>

text \<open>
  Lines 93-118. \<^verbatim>\<open>Card.query.get\<close> returns \<^verbatim>\<open>None\<close> for an unknown id and the next
  statement reads \<^verbatim>\<open>card.card_type\<close>, which raises \<^verbatim>\<open>AttributeError\<close> on \<^verbatim>\<open>None\<close>; nothing
  has been written by then. Otherwise the balance is updated by the nested
  \<^verbatim>\<open>if\<close>/\<^verbatim>\<open>else\<close> of lines 96-105, the transaction row is added and both are committed.
\<close>

definition add_transaction ::
  "'a::{plus,minus} database \<Rightarrow> int \<Rightarrow> string \<Rightarrow> 'a \<Rightarrow> string \<Rightarrow> string \<Rightarrow> datetime
    \<Rightarrow> error + 'a database" where
  "add_transaction s card_id' transaction_type' amount' description' category' date' =
     (case query_get (cards s) card_id' of
        None \<Rightarrow> Inl AttributeError
      | Some card' \<Rightarrow>
          let card1 =
                (if card_type card' = ''debit'' then
                   (if transaction_type' = ''expense''
                    then card'\<lparr>balance := balance card' - amount'\<rparr>
                    else card'\<lparr>balance := balance card' + amount'\<rparr>)
                 else
                   (if transaction_type' = ''expense''
                    then card'\<lparr>balance := balance card' + amount'\<rparr>
                    else card'\<lparr>balance := balance card' - amount'\<rparr>));
              new_transaction =
                \<lparr>tid = next_tid (transactions s),
                 card_id = card_id',
                 transaction_type = transaction_type',
                 amount = amount',
                 description = description',
                 category = category',
                 date = date'\<rparr>
          in Inr (s\<lparr>cards := flush_card card1 (cards s),
                    transactions := transactions s @ [new_transaction]\<rparr>))"

subsection \<open>\<^verbatim>\<open>delete_card\<close>\<close>

text \<open>
  Lines 131-136. \<^verbatim>\<open>get_or_404\<close> aborts with 404 for an unknown id. Deleting the card
  deletes the transactions that reference it: the relationship \<^verbatim>\<open>Card.transactions\<close>
  (line 18) is declared with \<^verbatim>\<open>cascade='all, delete-orphan'\<close>.
\<close>

definition delete_card :: "'a database \<Rightarrow> int \<Rightarrow> error + 'a database" where
  "delete_card s card_id' =
     (case query_get (cards s) card_id' of
        None \<Rightarrow> Inl NotFound
      | Some card' \<Rightarrow>
          Inr (s\<lparr>cards := filter (\<lambda>r. cid r \<noteq> cid card') (cards s),
                 transactions := filter (\<lambda>t. card_id t \<noteq> cid card') (transactions s)\<rparr>))"

subsection \<open>Monthly statistics (\<^verbatim>\<open>index\<close>)\<close>

record 'a month_stats =
  income :: 'a
  expenses :: 'a
  savings :: 'a

text \<open>
  \<^verbatim>\<open>strftime('%Y-%m')\<close>, as the C library formats it on Linux: the year as a decimal
  number without padding (\<^verbatim>\<open>'2024'\<close>, and \<^verbatim>\<open>'999'\<close> for the year 999), a hyphen, the
  month as two digits.
\<close>

definition digit :: "nat \<Rightarrow> char" where
  "digit n = ''0123456789'' ! (n mod 10)"

fun decimal :: "nat \<Rightarrow> string" where
  "decimal n = (if n < 10 then [digit n] else decimal (n div 10) @ [digit n])"

declare decimal.simps [simp del]

definition strftime_Ym :: "datetime \<Rightarrow> string" where
  "strftime_Ym d =
     decimal (year d) @ [CHR ''-'', digit (month d div 10), digit (month d)]"

text \<open>
  One iteration of the loop of lines 48-56. The dictionary \<^verbatim>\<open>monthly_stats\<close> is an
  association list in insertion order: a new key is appended, an existing entry is
  updated in place.
\<close>

definition stats_step ::
  "'a::{zero,plus} transaction \<Rightarrow> (string \<times> 'a month_stats) list \<Rightarrow> (string \<times> 'a month_stats) list"
  where
  "stats_step t monthly_stats =
     (let month_key = strftime_Ym (date t);
          ms1 = (if month_key \<notin> set (map fst monthly_stats)
                 then monthly_stats @ [(month_key, \<lparr>income = 0, expenses = 0, savings = 0\<rparr>)]
                 else monthly_stats)
      in if transaction_type t = ''income''
         then AList.map_entry month_key (\<lambda>m. m\<lparr>income := income m + amount t\<rparr>) ms1
         else AList.map_entry month_key (\<lambda>m. m\<lparr>expenses := expenses m + amount t\<rparr>) ms1)"

text \<open>The loop of lines 59-60.\<close>

definition set_savings ::
  "(string \<times> 'a::minus month_stats) list \<Rightarrow> (string \<times> 'a month_stats) list" where
  "set_savings monthly_stats =
     map (\<lambda>(k, m). (k, m\<lparr>savings := income m - expenses m\<rparr>)) monthly_stats"

text \<open>
  \<^verbatim>\<open>sorted(monthly_stats.items(), reverse=True)\<close>. The items are (key, value) pairs with
  pairwise different keys, so the comparison of two items is decided by their keys.
\<close>

definition sorted_reverse :: "(string \<times> 'b) list \<Rightarrow> (string \<times> 'b) list" where
  "sorted_reverse items = rev (sort_key fst items)"

definition monthly_statistics ::
  "'a::{zero,plus,minus} transaction list \<Rightarrow> (string \<times> 'a month_stats) list" where
  "monthly_statistics ts = sorted_reverse (set_savings (fold stats_step ts []))"

text \<open>
  \<^verbatim>\<open>index\<close> reads all transactions and hands the sorted statistics (and the cards) to the
  template.
\<close>

definition index ::
  "'a::{zero,plus,minus} database \<Rightarrow> 'a card list \<times> (string \<times> 'a month_stats) list" where
  "index s = (cards s, monthly_statistics (transactions s))"

subsection \<open>A sequence of requests against one card\<close>

text \<open>
  The loop of \<^verbatim>\<open>test_multiple_mixed_transactions\<close> (\<^verbatim>\<open>test_app.py\<close>, lines 466-474): one
  POST to \<^verbatim>\<open>add_transaction\<close> per entry, in order, all for the same card. The first
  failing request ends the run.
\<close>

type_synonym 'a form = "string \<times> 'a \<times> string \<times> string \<times> datetime"

fun post_all :: "'a::{plus,minus} database \<Rightarrow> int \<Rightarrow> 'a form list \<Rightarrow> error + 'a database" where
  "post_all s card_id' [] = Inr s"
| "post_all s card_id' ((trans_type, amount', description', category', date') # rest) =
     (case add_transaction s card_id' trans_type amount' description' category' date' of
        Inl e \<Rightarrow> Inl e
      | Inr s' \<Rightarrow> post_all s' card_id' rest)"

subsection \<open>The sign table of the specification\<close>

text \<open>
  Section 4.1 of the specification, in its own words: card kinds debit and credit,
  transaction kinds income and expense, and the balance delta of each of the four pairs.
  \<open>card_kind_str\<close> and \<open>kind_str\<close> give the strings that stand for the kinds in the tables.
\<close>

datatype card_kind = Debit | Credit

datatype transaction_kind = Income | Expense

fun card_kind_str :: "card_kind \<Rightarrow> string" where
  "card_kind_str Debit = ''debit''"
| "card_kind_str Credit = ''credit''"

fun kind_str :: "transaction_kind \<Rightarrow> string" where
  "kind_str Income = ''income''"
| "kind_str Expense = ''expense''"

fun delta :: "card_kind \<Rightarrow> transaction_kind \<Rightarrow> 'a::uminus \<Rightarrow> 'a" where
  "delta Debit Expense a = - a"
| "delta Debit Income a = a"
| "delta Credit Expense a = a"
| "delta Credit Income a = - a"

text \<open>A typed request, and the form that carries it.\<close>

type_synonym 'a event = "transaction_kind \<times> 'a \<times> string \<times> string \<times> datetime"

definition form_of :: "'a event \<Rightarrow> 'a form" where
  "form_of e = (case e of (k, rest) \<Rightarrow> (kind_str k, rest))"

definition event_delta :: "card_kind \<Rightarrow> 'a::uminus event \<Rightarrow> 'a" where
  "event_delta ck e = delta ck (fst e) (fst (snd e))"

subsection \<open>Auxiliary definitions for the statements\<close>

text \<open>
  The balance written by lines 96-105, as a function of the card's kind string, the
  transaction's kind string, the old balance and the amount (the four branches of the
  source, in its order).
\<close>

definition ledger_balance :: "string \<Rightarrow> string \<Rightarrow> 'a::{plus,minus} \<Rightarrow> 'a \<Rightarrow> 'a" where
  "ledger_balance ct tk b a =
     (if ct = ''debit'' then (if tk = ''expense'' then b - a else b + a)
      else (if tk = ''expense'' then b + a else b - a))"

text \<open>
  The fixtures of \<^verbatim>\<open>test_app.py\<close> (a debit card with balance 1000.0, a credit card with
  balance 0.0, each the only card of a fresh database) and the date used by the tests.
\<close>

definition debit_card :: "real card" where
  "debit_card = \<lparr>cid = 1, name = ''Test Debit Card'', card_type = ''debit'', balance = 1000\<rparr>"

definition credit_card :: "real card" where
  "credit_card = \<lparr>cid = 1, name = ''Test Credit Card'', card_type = ''credit'', balance = 0\<rparr>"

definition debit_db :: "real database" where
  "debit_db = \<lparr>cards = [debit_card], transactions = []\<rparr>"

definition credit_db :: "real database" where
  "credit_db = \<lparr>cards = [credit_card], transactions = []\<rparr>"

definition jan15 :: datetime where
  "jan15 = \<lparr>year = 2024, month = 1, day = 15\<rparr>"

definition feb01 :: datetime where
  "feb01 = \<lparr>year = 2024, month = 2, day = 1\<rparr>"

definition may0999 :: datetime where
  "may0999 = \<lparr>year = 999, month = 5, day = 15\<rparr>"

text \<open>
  Three stores used as examples: the debit card's store after a request of kind
  \<^verbatim>\<open>'refund'\<close>, the credit card's store after a request of kind \<^verbatim>\<open>'transfer'\<close>, and the
  debit card's store with an expense of 100 on 2024-01-15 and an income of 50 on
  2024-02-01 (the sixth scenario of the specification).
\<close>

definition refund_db :: "real database" where
  "refund_db =
     \<lparr>cards = [debit_card\<lparr>balance := 1100\<rparr>],
      transactions =
        [\<lparr>tid = 1, card_id = 1, transaction_type = ''refund'', amount = 100,
          description = ''Refund'', category = ''Other'', date = jan15\<rparr>]\<rparr>"

definition transfer_db :: "real database" where
  "transfer_db =
     \<lparr>cards = [credit_card\<lparr>balance := - 50\<rparr>],
      transactions =
        [\<lparr>tid = 1, card_id = 1, transaction_type = ''transfer'', amount = 50,
          description = ''Transfer'', category = ''Other'', date = jan15\<rparr>]\<rparr>"

definition two_month_db :: "real database" where
  "two_month_db =
     \<lparr>cards = [debit_card\<lparr>balance := 950\<rparr>],
      transactions =
        [\<lparr>tid = 1, card_id = 1, transaction_type = ''expense'', amount = 100,
          description = ''Groceries'', category = ''Food & Dining'', date = jan15\<rparr>,
         \<lparr>tid = 2, card_id = 1, transaction_type = ''income'', amount = 50,
          description = ''Refund'', category = ''Other'', date = feb01\<rparr>]\<rparr>"

text \<open>
  The debit card's store with an expense of 100 dated 0999-05-15 and an expense of 100
  dated 2024-01-15.
\<close>

definition old_year_db :: "real database" where
  "old_year_db =
     \<lparr>cards = [debit_card\<lparr>balance := 800\<rparr>],
      transactions =
        [\<lparr>tid = 1, card_id = 1, transaction_type = ''expense'', amount = 100,
          description = ''Old'', category = ''Other'', date = may0999\<rparr>,
         \<lparr>tid = 2, card_id = 1, transaction_type = ''expense'', amount = 100,
          description = ''New'', category = ''Other'', date = jan15\<rparr>]\<rparr>"

text \<open>
  A store with the debit card (id 1) and the credit card under id 2, each with one expense.
\<close>

definition two_card_db :: "real database" where
  "two_card_db =
     \<lparr>cards = [debit_card\<lparr>balance := 900\<rparr>, credit_card\<lparr>cid := 2, balance := 200\<rparr>],
      transactions =
        [\<lparr>tid = 1, card_id = 1, transaction_type = ''expense'', amount = 100,
          description = ''Test Grocery Shopping'', category = ''Food & Dining'', date = jan15\<rparr>,
         \<lparr>tid = 2, card_id = 2, transaction_type = ''expense'', amount = 200,
          description = ''Test Online Shopping'', category = ''Shopping'', date = feb01\<rparr>]\<rparr>"

text \<open>
  The amounts of the transactions of month \<open>k\<close> whose kind string satisfies \<open>P\<close>, over the
  transactions of all cards, added to 0 one after the other in table order (as the loop
  of \<^verbatim>\<open>index\<close> adds them).
\<close>

definition month_total ::
  "(string \<Rightarrow> bool) \<Rightarrow> string \<Rightarrow> 'a::{zero,plus} transaction list \<Rightarrow> 'a" where
  "month_total P k ts =
     foldl (+) 0 (map amount
       (filter (\<lambda>t. strftime_Ym (date t) = k \<and> P (transaction_type t)) ts))"

text \<open>The sum of the amounts of all transactions whose kind string satisfies \<open>P\<close>.\<close>

definition kind_total :: "(string \<Rightarrow> bool) \<Rightarrow> 'a::comm_monoid_add transaction list \<Rightarrow> 'a" where
  "kind_total P ts = sum_list (map amount (filter (\<lambda>t. P (transaction_type t)) ts))"

text \<open>The dates of \<^verbatim>\<open>datetime\<close>: years 1 to 9999, months 1 to 12.\<close>

definition valid_date :: "datetime \<Rightarrow> bool" where
  "valid_date d = (1 \<le> year d \<and> year d \<le> 9999 \<and> 1 \<le> month d \<and> month d \<le> 12)"

section \<open>The ledger\<close>

subsection \<open>Looking up and writing back a card\<close>

lemma query_get_cid: "query_get rows k = Some r \<Longrightarrow> cid r = k"
  by (induction rows) (auto simp: query_get_def split: if_splits)

lemma query_get_flush_same:
  "query_get rows k = Some r \<Longrightarrow> cid c = k \<Longrightarrow> query_get (flush_card c rows) k = Some c"
  by (induction rows) (auto simp: query_get_def flush_card_def split: if_splits)

lemma query_get_flush_other:
  "k \<noteq> cid c \<Longrightarrow> query_get (flush_card c rows) k = query_get rows k"
  by (induction rows) (auto simp: query_get_def flush_card_def)

lemma add_transaction_found:
  assumes "query_get (cards s) k = Some c"
  shows "add_transaction s k tk a de ca dt =
     Inr (s\<lparr>cards := flush_card (c\<lparr>balance := ledger_balance (card_type c) tk (balance c) a\<rparr>) (cards s),
            transactions := transactions s @
              [\<lparr>tid = next_tid (transactions s), card_id = k, transaction_type = tk,
                amount = a, description = de, category = ca, date = dt\<rparr>]\<rparr>)"
  using assms by (simp add: add_transaction_def ledger_balance_def Let_def)

lemma add_transaction_get:
  assumes "query_get (cards s) k = Some c"
    and "add_transaction s k tk a de ca dt = Inr s'"
  shows "query_get (cards s') k =
     Some (c\<lparr>balance := ledger_balance (card_type c) tk (balance c) a\<rparr>)"
  using assms(2) unfolding add_transaction_found [OF assms(1)]
  using query_get_flush_same [OF assms(1)] query_get_cid [OF assms(1)] by auto

lemma ledger_balance_delta:
  "ledger_balance ct tk b (a::'a::ab_group_add) =
     b + delta (if ct = ''debit'' then Debit else Credit)
               (if tk = ''expense'' then Expense else Income) a"
  by (simp add: ledger_balance_def)

subsection \<open>The sign table\<close>

text \<open>
  Claim C1, as amended. For an existing card, recording a transaction succeeds and changes
  the card's balance by the delta of the sign table, where the code reads every card kind
  other than \<^verbatim>\<open>'debit'\<close> as credit and every transaction kind other than \<^verbatim>\<open>'expense'\<close> as
  income. In particular, for a card of kind debit or credit and a transaction of kind
  income or expense the balance changes by exactly the delta of the table's row. Pairs of
  kinds outside the table are accepted, not rejected.
\<close>

theorem add_transaction_sign_table:
  fixes a :: "'a::ab_group_add"
  assumes "query_get (cards s) k = Some c"
  shows "\<exists>s'. add_transaction s k tk a de ca dt = Inr s' \<and>
     query_get (cards s') k =
       Some (c\<lparr>balance := balance c +
          delta (if card_type c = ''debit'' then Debit else Credit)
                (if tk = ''expense'' then Expense else Income) a\<rparr>) \<and>
     (\<forall>K T. card_type c = card_kind_str K \<and> tk = kind_str T \<longrightarrow>
        query_get (cards s') k = Some (c\<lparr>balance := balance c + delta K T a\<rparr>))"
proof -
  obtain s' where s': "add_transaction s k tk a de ca dt = Inr s'"
    using add_transaction_found [OF assms] by blast
  have g: "query_get (cards s') k =
       Some (c\<lparr>balance := balance c +
          delta (if card_type c = ''debit'' then Debit else Credit)
                (if tk = ''expense'' then Expense else Income) a\<rparr>)"
    using add_transaction_get [OF assms s'] by (simp add: ledger_balance_delta)
  have "query_get (cards s') k = Some (c\<lparr>balance := balance c + delta K T a\<rparr>)"
    if "card_type c = card_kind_str K" "tk = kind_str T" for K T
    using g that by (cases K; cases T) simp_all
  with s' g show ?thesis by blast
qed

text \<open>
  The theorem at the first scenario of the tests: an expense of 100 on the debit card
  with balance 1000 leaves 900.
\<close>

theorem add_transaction_sign_table_witness:
  "query_get (cards debit_db) 1 = Some debit_card \<and>
   card_type debit_card = card_kind_str Debit \<and> ''expense'' = kind_str Expense \<and>
   (\<exists>s'. add_transaction debit_db 1 ''expense'' 100 ''Test Grocery Shopping''
            ''Food & Dining'' jan15 = Inr s' \<and>
      query_get (cards s') 1 = Some (debit_card\<lparr>balance := 900\<rparr>))"
proof -
  have h: "query_get (cards debit_db) 1 = Some debit_card"
    by (simp add: debit_db_def debit_card_def query_get_def)
  have k: "card_type debit_card = card_kind_str Debit" "''expense'' = kind_str Expense"
    by (simp_all add: debit_card_def)
  have b: "balance debit_card + delta Debit Expense 100 = 900"
    by (simp add: debit_card_def)
  from add_transaction_sign_table [OF h, of "''expense''" 100 "''Test Grocery Shopping''"
      "''Food & Dining''" jan15]
  obtain s' where s':
    "add_transaction debit_db 1 ''expense'' 100 ''Test Grocery Shopping''
       ''Food & Dining'' jan15 = Inr s'"
    "\<forall>K T. card_type debit_card = card_kind_str K \<and> ''expense'' = kind_str T \<longrightarrow>
        query_get (cards s') 1 = Some (debit_card\<lparr>balance := balance debit_card + delta K T 100\<rparr>)"
    by blast
  from s'(2) k
  have "query_get (cards s') 1 =
     Some (debit_card\<lparr>balance := balance debit_card + delta Debit Expense 100\<rparr>)"
    by blast
  then have "query_get (cards s') 1 = Some (debit_card\<lparr>balance := 900\<rparr>)"
    unfolding b .
  with s'(1) have "\<exists>s'. add_transaction debit_db 1 ''expense'' 100 ''Test Grocery Shopping''
            ''Food & Dining'' jan15 = Inr s' \<and>
      query_get (cards s') 1 = Some (debit_card\<lparr>balance := 900\<rparr>)"
    by blast
  with h k show ?thesis by blast
qed

text \<open>
  Claim C1 as stated fails in its last part: the pair (debit, refund) is not a row of the
  table, and the request is accepted; the balance grows by the amount.
\<close>

theorem fifth_combination_accepted:
  "''refund'' \<noteq> kind_str Income \<and> ''refund'' \<noteq> kind_str Expense \<and>
   add_transaction debit_db 1 ''refund'' 100 ''Refund'' ''Other'' jan15 =
     Inr \<lparr>cards = [debit_card\<lparr>balance := 1100\<rparr>],
          transactions =
            [\<lparr>tid = 1, card_id = 1, transaction_type = ''refund'', amount = 100,
              description = ''Refund'', category = ''Other'', date = jan15\<rparr>]\<rparr>"
  by (simp add: add_transaction_def debit_db_def debit_card_def query_get_def
      flush_card_def next_tid_def)

subsection \<open>The balance after a sequence of transactions\<close>

lemma post_all_balance:
  fixes c :: "'a::ab_group_add card"
  assumes "query_get (cards s) k = Some c" and "card_type c = card_kind_str K"
  shows "\<exists>s'. post_all s k (map form_of es) = Inr s' \<and>
     query_get (cards s') k =
       Some (c\<lparr>balance := foldl (\<lambda>b e. b + event_delta K e) (balance c) es\<rparr>)"
  using assms
proof (induction es arbitrary: s c)
  case Nil
  then show ?case by simp
next
  case (Cons e es)
  obtain T a de ca dt where e: "e = (T, a, de, ca, dt)"
    by (cases e) auto
  obtain s1 where s1: "add_transaction s k (kind_str T) a de ca dt = Inr s1"
    using add_transaction_found [OF Cons.prems(1)] by blast
  let ?c1 = "c\<lparr>balance := balance c + delta K T a\<rparr>"
  have g1: "query_get (cards s1) k = Some ?c1"
    using add_transaction_get [OF Cons.prems(1) s1] Cons.prems(2)
    by (cases K; cases T) (simp_all add: ledger_balance_def)
  have k1: "card_type ?c1 = card_kind_str K"
    using Cons.prems(2) by simp
  from Cons.IH [OF g1 k1] obtain s' where
    "post_all s1 k (map form_of es) = Inr s'"
    "query_get (cards s') k =
       Some (?c1\<lparr>balance := foldl (\<lambda>b e. b + event_delta K e) (balance ?c1) es\<rparr>)"
    by blast
  moreover have "form_of e = (kind_str T, a, de, ca, dt)"
    by (simp add: e form_of_def)
  moreover have "event_delta K e = delta K T a"
    by (simp add: e event_delta_def)
  ultimately show ?case
    using s1 by simp
qed

lemma foldl_plus_sum_list:
  "foldl (\<lambda>b e. b + f e) (b0::'a::ab_group_add) es = b0 + sum_list (map f es)"
  by (induction es arbitrary: b0) (simp_all add: add.assoc)

text \<open>
  Claim C2. For a card of kind debit or credit in the store and any finite sequence of
  transactions of kind income or expense recorded against it, every request succeeds, and
  afterwards the card's balance is the initial balance with the sign-table deltas added
  one after the other in recording order, which is the initial balance plus their sum.
\<close>

theorem balance_fold:
  fixes c :: "'a::ab_group_add card"
  assumes "query_get (cards s) k = Some c" and "card_type c = card_kind_str K"
  shows "\<exists>s'. post_all s k (map form_of es) = Inr s' \<and>
     query_get (cards s') k =
       Some (c\<lparr>balance := foldl (\<lambda>b e. b + event_delta K e) (balance c) es\<rparr>) \<and>
     query_get (cards s') k =
       Some (c\<lparr>balance := balance c + sum_list (map (event_delta K) es)\<rparr>)"
  using post_all_balance [OF assms, of es] by (auto simp: foldl_plus_sum_list)

text \<open>
  The theorem at the fifth scenario of the tests: income 1000, expense 150, expense 75.50,
  income 200, expense 300 on the debit card with balance 1000 leave 1674.50.
\<close>

theorem balance_fold_witness:
  "query_get (cards debit_db) 1 = Some debit_card \<and>
   card_type debit_card = card_kind_str Debit \<and>
   (\<exists>s'. post_all debit_db 1
      [(''income'', 1000, ''Test income'', ''Other'', jan15),
       (''expense'', 150, ''Test expense'', ''Other'', jan15),
       (''expense'', 75.5, ''Test expense'', ''Other'', jan15),
       (''income'', 200, ''Test income'', ''Other'', jan15),
       (''expense'', 300, ''Test expense'', ''Other'', jan15)] = Inr s' \<and>
      query_get (cards s') 1 = Some (debit_card\<lparr>balance := 1674.5\<rparr>))"
proof -
  let ?es = "[(Income, 1000::real, ''Test income'', ''Other'', jan15),
       (Expense, 150, ''Test expense'', ''Other'', jan15),
       (Expense, 75.5, ''Test expense'', ''Other'', jan15),
       (Income, 200, ''Test income'', ''Other'', jan15),
       (Expense, 300, ''Test expense'', ''Other'', jan15)]"
  have h: "query_get (cards debit_db) 1 = Some debit_card"
    by (simp add: debit_db_def debit_card_def query_get_def)
  have k: "card_type debit_card = card_kind_str Debit"
    by (simp add: debit_card_def)
  have f: "map form_of ?es =
      [(''income'', 1000, ''Test income'', ''Other'', jan15),
       (''expense'', 150, ''Test expense'', ''Other'', jan15),
       (''expense'', 75.5, ''Test expense'', ''Other'', jan15),
       (''income'', 200, ''Test income'', ''Other'', jan15),
       (''expense'', 300, ''Test expense'', ''Other'', jan15)]"
    by (simp add: form_of_def)
  have b: "balance debit_card + sum_list (map (event_delta Debit) ?es) = 1674.5"
    by (simp add: debit_card_def event_delta_def)
  from balance_fold [OF h k, of ?es] obtain s' where
    "post_all debit_db 1 (map form_of ?es) = Inr s'"
    "query_get (cards s') 1 =
       Some (debit_card\<lparr>balance := balance debit_card + sum_list (map (event_delta Debit) ?es)\<rparr>)"
    by blast
  then have "\<exists>s'. post_all debit_db 1 (map form_of ?es) = Inr s' \<and>
      query_get (cards s') 1 = Some (debit_card\<lparr>balance := 1674.5\<rparr>)"
    unfolding b by blast
  then show ?thesis
    unfolding f using h k by blast
qed

subsection \<open>Kinds outside the table\<close>

text \<open>
  Claim C3 as stated fails: a request whose kind is \<^verbatim>\<open>'transfer'\<close> is not rejected. On the
  credit card with balance 0 it stores the transaction and lowers the balance by the
  amount.
\<close>

theorem invalid_kind_not_rejected:
  "add_transaction credit_db 1 ''transfer'' 50 ''Transfer'' ''Other'' jan15 =
     Inr \<lparr>cards = [credit_card\<lparr>balance := - 50\<rparr>],
          transactions =
            [\<lparr>tid = 1, card_id = 1, transaction_type = ''transfer'', amount = 50,
              description = ''Transfer'', category = ''Other'', date = jan15\<rparr>]\<rparr>"
  by (simp add: add_transaction_def credit_db_def credit_card_def query_get_def
      flush_card_def next_tid_def)

text \<open>
  Claim C3, as amended. A request for an existing card whose kind is neither
  \<^verbatim>\<open>'income'\<close> nor \<^verbatim>\<open>'expense'\<close> is not rejected: it succeeds, appends exactly one
  transaction that carries the kind string as given, and leaves the card table as the
  same request with kind \<^verbatim>\<open>'income'\<close> does.
\<close>

theorem invalid_kind_recorded:
  fixes a :: "'a::{plus,minus}"
  assumes "query_get (cards s) k = Some c"
    and "tk \<noteq> ''income''" and "tk \<noteq> ''expense''"
  shows "\<exists>s' s''. add_transaction s k tk a de ca dt = Inr s' \<and>
     transactions s' = transactions s @
       [\<lparr>tid = next_tid (transactions s), card_id = k, transaction_type = tk,
         amount = a, description = de, category = ca, date = dt\<rparr>] \<and>
     add_transaction s k ''income'' a de ca dt = Inr s'' \<and>
     cards s' = cards s''"
  using assms(3)
  by (simp add: add_transaction_found [OF assms(1)] ledger_balance_def)

theorem invalid_kind_recorded_witness:
  "query_get (cards credit_db) 1 = Some credit_card \<and>
   ''transfer'' \<noteq> ''income'' \<and> ''transfer'' \<noteq> ''expense'' \<and>
   (\<exists>s' s''. add_transaction credit_db 1 ''transfer'' 50 ''Transfer'' ''Other'' jan15 = Inr s' \<and>
     transactions s' = transactions credit_db @
       [\<lparr>tid = next_tid (transactions credit_db), card_id = 1, transaction_type = ''transfer'',
         amount = 50, description = ''Transfer'', category = ''Other'', date = jan15\<rparr>] \<and>
     add_transaction credit_db 1 ''income'' 50 ''Transfer'' ''Other'' jan15 = Inr s'' \<and>
     cards s' = cards s'')"
proof -
  have h: "query_get (cards credit_db) 1 = Some credit_card"
    by (simp add: credit_db_def credit_card_def query_get_def)
  have n: "''transfer'' \<noteq> ''income''" "''transfer'' \<noteq> ''expense''"
    by simp_all
  from invalid_kind_recorded [OF h n, of 50 "''Transfer''" "''Other''" jan15] h n
  show ?thesis by blast
qed

subsection \<open>A card id that is not in the table\<close>

text \<open>
  Claim C4 on the code. A request for a card id that is not in the card table ends in
  the \<^verbatim>\<open>AttributeError\<close> of \<^verbatim>\<open>card.card_type\<close> on \<^verbatim>\<open>None\<close>, an unhandled exception, not
  in a not-found result; nothing is stored, since the error leaves no new state.
  \<^verbatim>\<open>delete_card\<close> answers the same id with 404, through \<^verbatim>\<open>get_or_404\<close>.
\<close>

theorem add_transaction_missing_card:
  "query_get (cards debit_db) 42 = None \<and>
   add_transaction debit_db 42 ''expense'' 100 ''Test'' ''Other'' jan15 = Inl AttributeError \<and>
   delete_card debit_db 42 = Inl NotFound"
  by (simp add: add_transaction_def delete_card_def debit_db_def debit_card_def query_get_def)

section \<open>The monthly statistics\<close>

subsection \<open>The accumulation loop\<close>

lemma stats_step_keys:
  "fst ` set (stats_step t ms) = insert (strftime_Ym (date t)) (fst ` set ms)"
  by (auto simp: stats_step_def Let_def AList.dom_map_entry)

lemma stats_step_distinct:
  "distinct (map fst ms) \<Longrightarrow> distinct (map fst (stats_step t ms))"
  by (auto simp: stats_step_def Let_def intro!: AList.distinct_map_entry)

lemma stats_step_map_of:
  "map_of (stats_step t ms) k =
     (if k = strftime_Ym (date t) then
        (let m = (case map_of ms k of
                    None \<Rightarrow> \<lparr>income = 0, expenses = 0, savings = 0\<rparr>
                  | Some m \<Rightarrow> m)
         in Some (if transaction_type t = ''income''
                  then m\<lparr>income := income m + amount t\<rparr>
                  else m\<lparr>expenses := expenses m + amount t\<rparr>))
      else map_of ms k)"
proof (cases "strftime_Ym (date t) \<in> set (map fst ms)")
  case True
  then obtain m where "map_of ms (strftime_Ym (date t)) = Some m"
    by (metis (no_types) map_of_eq_None_iff not_Some_eq set_map)
  with True show ?thesis
    by (simp add: stats_step_def Let_def AList.map_of_map_entry)
next
  case False
  then have "map_of ms (strftime_Ym (date t)) = None"
    by (simp add: map_of_eq_None_iff)
  with False show ?thesis
    by (auto simp: stats_step_def Let_def AList.map_of_map_entry map_add_def split: option.splits)
qed


lemma fold_snoc: "fold f (xs @ [x]) s = f x (fold f xs s)"
  by simp

lemma stats_loop_keys:
  "fst ` set (fold stats_step ts []) = (\<lambda>t. strftime_Ym (date t)) ` set ts"
  by (induction ts rule: rev_induct) (auto simp: stats_step_keys)

lemma stats_loop_distinct: "distinct (map fst (fold stats_step ts []))"
  by (induction ts rule: rev_induct) (auto simp: stats_step_distinct)

lemma month_total_snoc:
  "month_total P k (ts @ [t]) =
     (if strftime_Ym (date t) = k \<and> P (transaction_type t)
      then month_total P k ts + amount t else month_total P k ts)"
  by (simp add: month_total_def)

lemma stats_loop_map_of:
  fixes ts :: "'a::{zero,plus} transaction list"
  shows "map_of (fold stats_step ts []) k =
     (if k \<in> (\<lambda>t. strftime_Ym (date t)) ` set ts
      then Some \<lparr>income = month_total (\<lambda>x. x = ''income'') k ts,
                 expenses = month_total (\<lambda>x. x \<noteq> ''income'') k ts,
                 savings = 0\<rparr>
      else None)"
proof (induction ts rule: rev_induct)
  case Nil
  then show ?case by simp
next
  case (snoc t ts)
  show ?case
  proof (cases "k = strftime_Ym (date t)")
    case True
    show ?thesis
    proof (cases "k \<in> (\<lambda>t. strftime_Ym (date t)) ` set ts")
      case False
      then have "filter (\<lambda>t. strftime_Ym (date t) = k \<and> P (transaction_type t)) ts = []" for P
        by (auto simp: filter_empty_conv)
      then have "month_total P k ts = 0" for P
        by (simp add: month_total_def)
      with snoc False True show ?thesis
        by (simp add: stats_step_map_of month_total_snoc)
    next
      case in_ts: True
      with snoc True show ?thesis
        by (simp add: stats_step_map_of month_total_snoc)
    qed
  next
    case False
    with snoc show ?thesis
      by (simp add: stats_step_map_of month_total_snoc)
  qed
qed

subsection \<open>Savings and sorting\<close>

lemma set_savings_map_ran:
  "set_savings ms = AList.map_ran (\<lambda>k m. m\<lparr>savings := income m - expenses m\<rparr>) ms"
  by (simp add: set_savings_def AList.map_ran_def)

lemma set_savings_keys: "map fst (set_savings ms) = map fst ms"
  by (simp add: set_savings_map_ran)

lemma set_savings_map_of:
  "map_of (set_savings ms) k =
     map_option (\<lambda>m. m\<lparr>savings := income m - expenses m\<rparr>) (map_of ms k)"
  by (simp add: set_savings_map_ran AList.map_ran_conv)

lemma sorted_reverse_set: "set (sorted_reverse items) = set items"
  by (simp add: sorted_reverse_def)

lemma sorted_reverse_mset: "mset (sorted_reverse items) = mset items"
  by (simp add: sorted_reverse_def)

lemma sorted_reverse_distinct:
  assumes "distinct (map fst items)"
  shows "distinct (map fst (sorted_reverse items))"
proof -
  have "mset (map fst (sorted_reverse items)) = mset (map fst items)"
    by (simp add: sorted_reverse_mset)
  then show ?thesis
    using assms by (metis mset_eq_imp_distinct_iff)
qed

lemma sorted_reverse_descending:
  assumes "distinct (map fst items)"
  shows "sorted_wrt (\<lambda>a b. a > b) (map fst (sorted_reverse items))"
proof -
  have "sorted (map fst (sort_key fst items))"
    by (rule sorted_sort_key)
  moreover have "distinct (map fst (sort_key fst items))"
    using sorted_reverse_distinct [OF assms] by (simp add: sorted_reverse_def rev_map [symmetric])
  ultimately have "sorted_wrt (<) (map fst (sort_key fst items))"
    by (simp add: strict_sorted_iff)
  then show ?thesis
    by (simp add: sorted_reverse_def sorted_wrt_rev flip: rev_map)
qed

lemma sorted_reverse_map_of:
  assumes "distinct (map fst items)"
  shows "map_of (sorted_reverse items) = map_of items"
  using assms sorted_reverse_distinct [OF assms]
  by (simp add: map_of_inject_set sorted_reverse_set)

lemma monthly_statistics_keys:
  "set (map fst (monthly_statistics ts)) = (\<lambda>t. strftime_Ym (date t)) ` set ts"
proof -
  have "set (map fst (monthly_statistics ts)) = fst ` set (set_savings (fold stats_step ts []))"
    by (simp add: monthly_statistics_def sorted_reverse_set)
  also have "\<dots> = set (map fst (set_savings (fold stats_step ts [])))"
    by simp
  also have "\<dots> = fst ` set (fold stats_step ts [])"
    by (simp only: set_savings_keys set_map)
  finally show ?thesis
    by (simp add: stats_loop_keys)
qed

lemma monthly_statistics_distinct: "distinct (map fst (monthly_statistics ts))"
  unfolding monthly_statistics_def
  by (rule sorted_reverse_distinct) (simp add: set_savings_keys stats_loop_distinct)

lemma monthly_statistics_descending:
  "sorted_wrt (\<lambda>a b. a > b) (map fst (monthly_statistics ts))"
  unfolding monthly_statistics_def
  by (rule sorted_reverse_descending) (simp add: set_savings_keys stats_loop_distinct)

lemma monthly_statistics_map_of:
  fixes ts :: "'a::{zero,plus,minus} transaction list"
  shows "map_of (monthly_statistics ts) k =
     (if k \<in> (\<lambda>t. strftime_Ym (date t)) ` set ts
      then Some \<lparr>income = month_total (\<lambda>x. x = ''income'') k ts,
                 expenses = month_total (\<lambda>x. x \<noteq> ''income'') k ts,
                 savings = month_total (\<lambda>x. x = ''income'') k ts -
                           month_total (\<lambda>x. x \<noteq> ''income'') k ts\<rparr>
      else None)"
proof -
  have "distinct (map fst (set_savings (fold stats_step ts [])))"
    by (simp add: set_savings_keys stats_loop_distinct)
  then have "map_of (monthly_statistics ts) k = map_of (set_savings (fold stats_step ts [])) k"
    by (simp add: monthly_statistics_def sorted_reverse_map_of)
  then show ?thesis
    by (simp add: set_savings_map_of stats_loop_map_of)
qed

lemma monthly_statistics_mem:
  fixes ts :: "'a::{zero,plus,minus} transaction list"
  shows "(k, m) \<in> set (monthly_statistics ts) \<longleftrightarrow>
     k \<in> (\<lambda>t. strftime_Ym (date t)) ` set ts \<and>
     m = \<lparr>income = month_total (\<lambda>x. x = ''income'') k ts,
          expenses = month_total (\<lambda>x. x \<noteq> ''income'') k ts,
          savings = month_total (\<lambda>x. x = ''income'') k ts -
                    month_total (\<lambda>x. x \<noteq> ''income'') k ts\<rparr>"
proof -
  have "(k, m) \<in> set (monthly_statistics ts) \<longleftrightarrow> map_of (monthly_statistics ts) k = Some m"
    using monthly_statistics_distinct [of ts] by simp
  then show ?thesis
    by (auto simp: monthly_statistics_map_of)
qed

subsection \<open>Month keys\<close>

text \<open>
  The decimal representation of a number determines it, and the month has two digits, so
  two dates have the same key exactly when they agree on year and month. For years of four
  digits the key has the form YYYY-MM and the order of the keys as strings is the order of
  the months in time.
\<close>

lemma strict_sorted_nth_less_iff:
  fixes xs :: "'b::linorder list"
  assumes "sorted_wrt (<) xs" "i < length xs" "j < length xs"
  shows "xs ! i < xs ! j \<longleftrightarrow> i < j"
proof
  assume "i < j"
  with assms show "xs ! i < xs ! j"
    by (simp add: sorted_wrt_iff_nth_less)
next
  assume l: "xs ! i < xs ! j"
  show "i < j"
  proof (rule ccontr)
    assume "\<not> i < j"
    then consider "i = j" | "j < i" by linarith
    then show False
    proof cases
      case 1
      with l show False by simp
    next
      case 2
      with assms have "xs ! j < xs ! i"
        by (simp add: sorted_wrt_iff_nth_less)
      with l show False by simp
    qed
  qed
qed

lemma digits_sorted: "sorted_wrt (<) ''0123456789''"
  by (simp add: less_char_def)

lemma digit_less_iff: "digit a < digit b \<longleftrightarrow> a mod 10 < b mod 10"
  unfolding digit_def
  by (rule strict_sorted_nth_less_iff [OF digits_sorted]) simp_all

lemma digit_eq_iff: "digit a = digit b \<longleftrightarrow> a mod 10 = b mod 10"
  using digit_less_iff [of a b] digit_less_iff [of b a]
  by (metis digit_def less_irrefl linorder_neqE_nat)

lemma less_by_digits:
  "(a::nat) < b \<longleftrightarrow> a div 10 < b div 10 \<or> (a div 10 = b div 10 \<and> a mod 10 < b mod 10)"
proof -
  have a: "a = 10 * (a div 10) + a mod 10" and b: "b = 10 * (b div 10) + b mod 10"
    by simp_all
  have "a mod 10 < 10" "b mod 10 < 10" by simp_all
  then show ?thesis
    using a b by linarith
qed

lemma eq_by_digits:
  "(a::nat) = b \<longleftrightarrow> a div 10 = b div 10 \<and> a mod 10 = b mod 10"
  by (metis div_mult_mod_eq)

lemma year_less_digits:
  fixes y y' :: nat
  assumes "y < 10000" "y' < 10000"
  shows "y < y' \<longleftrightarrow>
     y div 1000 mod 10 < y' div 1000 mod 10 \<or>
     y div 1000 mod 10 = y' div 1000 mod 10 \<and>
       (y div 100 mod 10 < y' div 100 mod 10 \<or>
        y div 100 mod 10 = y' div 100 mod 10 \<and>
          (y div 10 mod 10 < y' div 10 mod 10 \<or>
           y div 10 mod 10 = y' div 10 mod 10 \<and> y mod 10 < y' mod 10))"
proof -
  have t: "y div 1000 mod 10 = y div 1000" "y' div 1000 mod 10 = y' div 1000"
    using assms by simp_all
  have d: "y div 10 div 10 = y div 100" "y div 100 div 10 = y div 1000"
    "y' div 10 div 10 = y' div 100" "y' div 100 div 10 = y' div 1000"
    by (simp_all add: div_mult2_eq [symmetric])
  show ?thesis
    unfolding t
    using less_by_digits [of y y'] less_by_digits [of "y div 10" "y' div 10"]
      less_by_digits [of "y div 100" "y' div 100"]
      eq_by_digits [of "y div 10" "y' div 10"] eq_by_digits [of "y div 100" "y' div 100"]
    unfolding d by blast
qed

lemma year_eq_digits:
  fixes y y' :: nat
  assumes "y < 10000" "y' < 10000"
  shows "y = y' \<longleftrightarrow>
     y div 1000 mod 10 = y' div 1000 mod 10 \<and> y div 100 mod 10 = y' div 100 mod 10 \<and>
     y div 10 mod 10 = y' div 10 mod 10 \<and> y mod 10 = y' mod 10"
proof -
  have t: "y div 1000 mod 10 = y div 1000" "y' div 1000 mod 10 = y' div 1000"
    using assms by simp_all
  have d: "y div 10 div 10 = y div 100" "y div 100 div 10 = y div 1000"
    "y' div 10 div 10 = y' div 100" "y' div 100 div 10 = y' div 1000"
    by (simp_all add: div_mult2_eq [symmetric])
  show ?thesis
    unfolding t
    using eq_by_digits [of y y'] eq_by_digits [of "y div 10" "y' div 10"]
      eq_by_digits [of "y div 100" "y' div 100"]
    unfolding d by blast
qed

lemma month_less_digits:
  fixes m m' :: nat
  assumes "m < 100" "m' < 100"
  shows "m < m' \<longleftrightarrow>
     m div 10 mod 10 < m' div 10 mod 10 \<or>
     m div 10 mod 10 = m' div 10 mod 10 \<and> m mod 10 < m' mod 10"
proof -
  have t: "m div 10 mod 10 = m div 10" "m' div 10 mod 10 = m' div 10"
    using assms by simp_all
  show ?thesis
    unfolding t by (rule less_by_digits)
qed

lemma month_eq_digits:
  fixes m m' :: nat
  assumes "m < 100" "m' < 100"
  shows "m = m' \<longleftrightarrow> m div 10 mod 10 = m' div 10 mod 10 \<and> m mod 10 = m' mod 10"
proof -
  have t: "m div 10 mod 10 = m div 10" "m' div 10 mod 10 = m' div 10"
    using assms by simp_all
  show ?thesis
    unfolding t by (rule eq_by_digits)
qed


lemma decimal_below_10000:
  assumes "y < 10000"
  shows "decimal y =
     (if y < 10 then [digit y]
      else if y < 100 then [digit (y div 10), digit y]
      else if y < 1000 then [digit (y div 100), digit (y div 10), digit y]
      else [digit (y div 1000), digit (y div 100), digit (y div 10), digit y])"
proof -
  have d: "y div 10 div 10 = y div 100" "y div 100 div 10 = y div 1000"
    by (simp_all add: div_mult2_eq [symmetric])
  have s0: "decimal y = (if y < 10 then [digit y] else decimal (y div 10) @ [digit y])"
    by (rule decimal.simps)
  have s1: "decimal (y div 10) =
      (if y div 10 < 10 then [digit (y div 10)] else decimal (y div 100) @ [digit (y div 10)])"
    using decimal.simps [of "y div 10"] by (simp only: d)
  have s2: "decimal (y div 100) =
      (if y div 100 < 10 then [digit (y div 100)]
       else decimal (y div 1000) @ [digit (y div 100)])"
    using decimal.simps [of "y div 100"] by (simp only: d)
  have "y div 1000 < 10"
    using assms by simp
  then have s3: "decimal (y div 1000) = [digit (y div 1000)]"
    by (subst decimal.simps) simp
  have r: "y div 10 < 10 \<longleftrightarrow> y < 100" "y div 100 < 10 \<longleftrightarrow> y < 1000"
    by auto
  show ?thesis
    unfolding s0 s1 s2 s3 r by auto
qed

lemma decimal_nonempty: "decimal n \<noteq> []"
  by (subst decimal.simps) simp

lemma decimal_inj: "decimal a = decimal b \<Longrightarrow> a = b"
proof (induction a arbitrary: b rule: decimal.induct)
  case (1 n)
  show ?case
  proof (cases "n < 10")
    case True
    then have n: "decimal n = [digit n]"
      by (subst decimal.simps) simp
    have b: "b < 10"
    proof (rule ccontr)
      assume "\<not> b < 10"
      then have "decimal b = decimal (b div 10) @ [digit b]"
        by (subst decimal.simps) simp
      with "1.prems" n have "decimal (b div 10) = []"
        by simp
      then show False
        by (simp add: decimal_nonempty)
    qed
    then have "decimal b = [digit b]"
      by (subst decimal.simps) simp
    with "1.prems" n have "n mod 10 = b mod 10"
      by (simp add: digit_eq_iff)
    with True b show ?thesis
      by simp
  next
    case False
    then have n: "decimal n = decimal (n div 10) @ [digit n]"
      by (subst decimal.simps) simp
    have b: "\<not> b < 10"
    proof
      assume "b < 10"
      then have "decimal b = [digit b]"
        by (subst decimal.simps) simp
      with "1.prems" n have "decimal (n div 10) = []"
        by simp
      then show False
        by (simp add: decimal_nonempty)
    qed
    then have "decimal b = decimal (b div 10) @ [digit b]"
      by (subst decimal.simps) simp
    with "1.prems" n have "decimal (n div 10) = decimal (b div 10)" "digit n = digit b"
      by simp_all
    then have "n div 10 = b div 10" "n mod 10 = b mod 10"
      using "1.IH" [OF False] by (simp_all add: digit_eq_iff)
    then show ?thesis
      using eq_by_digits [of n b] by simp
  qed
qed

lemma strftime_Ym_eq_iff:
  assumes "valid_date d" "valid_date d'"
  shows "strftime_Ym d = strftime_Ym d' \<longleftrightarrow> year d = year d' \<and> month d = month d'"
proof -
  have b: "month d < 100" "month d' < 100"
    using assms by (simp_all add: valid_date_def)
  have "strftime_Ym d = strftime_Ym d' \<longleftrightarrow>
      decimal (year d) = decimal (year d') \<and>
      [CHR ''-'', digit (month d div 10), digit (month d)] =
      [CHR ''-'', digit (month d' div 10), digit (month d')]"
    unfolding strftime_Ym_def by (rule append_eq_append_conv) simp
  also have "\<dots> \<longleftrightarrow> year d = year d' \<and> month d = month d'"
    unfolding month_eq_digits [OF b] using decimal_inj [of "year d" "year d'"]
    by (auto simp: digit_eq_iff)
  finally show ?thesis .
qed

lemma strftime_Ym_four_digits:
  assumes "1000 \<le> year d" "year d \<le> 9999"
  shows "strftime_Ym d =
     [digit (year d div 1000), digit (year d div 100), digit (year d div 10), digit (year d),
      CHR ''-'', digit (month d div 10), digit (month d)]"
  using assms by (simp add: strftime_Ym_def decimal_below_10000)

lemma strftime_Ym_less_iff:
  assumes "valid_date d" "valid_date d'" "1000 \<le> year d" "1000 \<le> year d'"
  shows "strftime_Ym d < strftime_Ym d' \<longleftrightarrow>
     year d < year d' \<or> (year d = year d' \<and> month d < month d')"
proof -
  have b: "year d < 10000" "year d' < 10000" "month d < 100" "month d' < 100"
    using assms by (simp_all add: valid_date_def)
  have f: "year d \<le> 9999" "year d' \<le> 9999"
    using b by simp_all
  show ?thesis
    unfolding year_less_digits [OF b(1,2)] year_eq_digits [OF b(1,2)]
      month_less_digits [OF b(3,4)]
      strftime_Ym_four_digits [OF assms(3) f(1)] strftime_Ym_four_digits [OF assms(4) f(2)]
    by (simp add: digit_eq_iff digit_less_iff) blast
qed

subsection \<open>The example stores\<close>

text \<open>The example stores are reached from the fixtures through the handlers.\<close>

lemma refund_db_reached:
  "add_transaction debit_db 1 ''refund'' 100 ''Refund'' ''Other'' jan15 = Inr refund_db"
  by (simp add: add_transaction_def debit_db_def debit_card_def query_get_def
      flush_card_def next_tid_def refund_db_def)

lemma transfer_db_reached:
  "add_transaction credit_db 1 ''transfer'' 50 ''Transfer'' ''Other'' jan15 = Inr transfer_db"
  by (simp add: add_transaction_def credit_db_def credit_card_def query_get_def
      flush_card_def next_tid_def transfer_db_def)

lemma two_month_db_reached:
  "post_all debit_db 1
     [(''expense'', 100, ''Groceries'', ''Food & Dining'', jan15),
      (''income'', 50, ''Refund'', ''Other'', feb01)] = Inr two_month_db"
  by (simp add: add_transaction_def debit_db_def debit_card_def query_get_def
      flush_card_def next_tid_def two_month_db_def)

lemma old_year_db_reached:
  "post_all debit_db 1
     [(''expense'', 100, ''Old'', ''Other'', may0999),
      (''expense'', 100, ''New'', ''Other'', jan15)] = Inr old_year_db"
  by (simp add: add_transaction_def debit_db_def debit_card_def query_get_def
      flush_card_def next_tid_def old_year_db_def)

lemma valid_jan15: "valid_date jan15"
  by (simp add: valid_date_def jan15_def)

lemma valid_feb01: "valid_date feb01"
  by (simp add: valid_date_def feb01_def)

lemma key_jan15: "strftime_Ym jan15 = ''2024-01''"
  by (simp add: strftime_Ym_def jan15_def decimal.simps digit_def)

lemma key_feb01: "strftime_Ym feb01 = ''2024-02''"
  by (simp add: strftime_Ym_def feb01_def decimal.simps digit_def)

lemma key_may0999: "strftime_Ym may0999 = ''999-05''"
  by (simp add: strftime_Ym_def may0999_def decimal.simps digit_def)

lemma valid_may0999: "valid_date may0999"
  by (simp add: valid_date_def may0999_def)

lemma index_two_month_db:
  "snd (index two_month_db) =
     [(''2024-02'', \<lparr>income = 50, expenses = 0, savings = 50\<rparr>),
      (''2024-01'', \<lparr>income = 0, expenses = 100, savings = - 100\<rparr>)]"
  by (simp add: index_def two_month_db_def monthly_statistics_def sorted_reverse_def
      set_savings_def stats_step_def key_jan15 key_feb01)

section \<open>The buckets of the monthly statistics\<close>

text \<open>
  Claim C6, as amended. The statistics group the transactions of all cards by the month
  key of their date, and two valid dates have the same key exactly when they agree on year
  and month; for a year of four digits the key has the form YYYY-MM. The bucket of a key
  exists exactly when some transaction has that key; its income is the sum of the amounts
  of that month's income transactions, its expenses the sum of the amounts of that month's
  transactions whose kind is not income, and its savings the difference of the two. When
  every kind is income or expense, the expenses are the sum of that month's expense
  transactions. The sums add the amounts to 0 in table order; no law of arithmetic is
  used.
\<close>

theorem monthly_statistics_buckets:
  fixes s :: "'a::{zero,plus,minus} database"
  shows "((k, m) \<in> set (snd (index s)) \<longleftrightarrow>
       k \<in> (\<lambda>t. strftime_Ym (date t)) ` set (transactions s) \<and>
       m = \<lparr>income = month_total (\<lambda>x. x = ''income'') k (transactions s),
            expenses = month_total (\<lambda>x. x \<noteq> ''income'') k (transactions s),
            savings = month_total (\<lambda>x. x = ''income'') k (transactions s) -
                      month_total (\<lambda>x. x \<noteq> ''income'') k (transactions s)\<rparr>) \<and>
     ((\<forall>t \<in> set (transactions s).
          transaction_type t = ''income'' \<or> transaction_type t = ''expense'') \<longrightarrow>
        month_total (\<lambda>x. x \<noteq> ''income'') k (transactions s) =
        month_total (\<lambda>x. x = ''expense'') k (transactions s)) \<and>
     (\<forall>d d'. valid_date d \<and> valid_date d' \<longrightarrow>
        (strftime_Ym d = strftime_Ym d' \<longleftrightarrow> year d = year d' \<and> month d = month d')) \<and>
     (\<forall>d. 1000 \<le> year d \<and> year d \<le> 9999 \<longrightarrow>
        strftime_Ym d =
          [digit (year d div 1000), digit (year d div 100), digit (year d div 10),
           digit (year d), CHR ''-'', digit (month d div 10), digit (month d)])"
proof (intro conjI)
  show "(k, m) \<in> set (snd (index s)) \<longleftrightarrow>
       k \<in> (\<lambda>t. strftime_Ym (date t)) ` set (transactions s) \<and>
       m = \<lparr>income = month_total (\<lambda>x. x = ''income'') k (transactions s),
            expenses = month_total (\<lambda>x. x \<noteq> ''income'') k (transactions s),
            savings = month_total (\<lambda>x. x = ''income'') k (transactions s) -
                      month_total (\<lambda>x. x \<noteq> ''income'') k (transactions s)\<rparr>"
    unfolding index_def snd_conv by (rule monthly_statistics_mem)
next
  show "(\<forall>t \<in> set (transactions s).
          transaction_type t = ''income'' \<or> transaction_type t = ''expense'') \<longrightarrow>
        month_total (\<lambda>x. x \<noteq> ''income'') k (transactions s) =
        month_total (\<lambda>x. x = ''expense'') k (transactions s)"
  proof
    assume v: "\<forall>t \<in> set (transactions s).
          transaction_type t = ''income'' \<or> transaction_type t = ''expense''"
    have "filter (\<lambda>t. strftime_Ym (date t) = k \<and> transaction_type t \<noteq> ''income'') (transactions s) =
          filter (\<lambda>t. strftime_Ym (date t) = k \<and> transaction_type t = ''expense'') (transactions s)"
      using v by (intro filter_cong) auto
    then show "month_total (\<lambda>x. x \<noteq> ''income'') k (transactions s) =
        month_total (\<lambda>x. x = ''expense'') k (transactions s)"
      by (simp add: month_total_def)
  qed
next
  show "\<forall>d d'. valid_date d \<and> valid_date d' \<longrightarrow>
        (strftime_Ym d = strftime_Ym d' \<longleftrightarrow> year d = year d' \<and> month d = month d')"
    using strftime_Ym_eq_iff by blast
next
  show "\<forall>d. 1000 \<le> year d \<and> year d \<le> 9999 \<longrightarrow>
        strftime_Ym d =
          [digit (year d div 1000), digit (year d div 100), digit (year d div 10),
           digit (year d), CHR ''-'', digit (month d div 10), digit (month d)]"
    using strftime_Ym_four_digits by blast
qed

text \<open>The theorem at the sixth scenario of the specification, for January 2024.\<close>

theorem monthly_statistics_buckets_witness:
  "(''2024-01'', \<lparr>income = 0, expenses = 100, savings = - 100\<rparr>) \<in> set (snd (index two_month_db)) \<and>
   ''2024-01'' \<in> (\<lambda>t. strftime_Ym (date t)) ` set (transactions two_month_db) \<and>
   month_total (\<lambda>x. x = ''income'') ''2024-01'' (transactions two_month_db) = 0 \<and>
   month_total (\<lambda>x. x = ''expense'') ''2024-01'' (transactions two_month_db) = 100 \<and>
   valid_date jan15 \<and> valid_date feb01 \<and> strftime_Ym jan15 \<noteq> strftime_Ym feb01 \<and>
   1000 \<le> year jan15 \<and> year jan15 \<le> 9999 \<and> strftime_Ym jan15 = ''2024-01''"
proof -
  let ?k = "''2024-01''"
  let ?m = "\<lparr>income = 0, expenses = 100, savings = - 100 :: real\<rparr>"
  have mem: "(?k, ?m) \<in> set (snd (index two_month_db))"
    by (simp add: index_two_month_db)
  have allv: "\<forall>t \<in> set (transactions two_month_db).
      transaction_type t = ''income'' \<or> transaction_type t = ''expense''"
    by (simp add: two_month_db_def)
  have y: "1000 \<le> year jan15" "year jan15 \<le> 9999"
    by (simp_all add: jan15_def)
  note th = monthly_statistics_buckets [of ?k ?m two_month_db]
  from th mem have k: "?k \<in> (\<lambda>t. strftime_Ym (date t)) ` set (transactions two_month_db)"
    and m: "?m = \<lparr>income = month_total (\<lambda>x. x = ''income'') ?k (transactions two_month_db),
            expenses = month_total (\<lambda>x. x \<noteq> ''income'') ?k (transactions two_month_db),
            savings = month_total (\<lambda>x. x = ''income'') ?k (transactions two_month_db) -
                      month_total (\<lambda>x. x \<noteq> ''income'') ?k (transactions two_month_db)\<rparr>"
    by blast+
  from th allv have e: "month_total (\<lambda>x. x \<noteq> ''income'') ?k (transactions two_month_db) =
        month_total (\<lambda>x. x = ''expense'') ?k (transactions two_month_db)"
    by blast
  from m have i: "month_total (\<lambda>x. x = ''income'') ?k (transactions two_month_db) = 0"
    and x: "month_total (\<lambda>x. x \<noteq> ''income'') ?k (transactions two_month_db) = 100"
    by simp_all
  from th valid_jan15 valid_feb01
  have "strftime_Ym jan15 = strftime_Ym feb01 \<longleftrightarrow>
      year jan15 = year feb01 \<and> month jan15 = month feb01"
    by blast
  then have n: "strftime_Ym jan15 \<noteq> strftime_Ym feb01"
    by (simp add: jan15_def feb01_def)
  from th y have "strftime_Ym jan15 =
      [digit (year jan15 div 1000), digit (year jan15 div 100), digit (year jan15 div 10),
       digit (year jan15), CHR ''-'', digit (month jan15 div 10), digit (month jan15)]"
    by blast
  then have f: "strftime_Ym jan15 = ''2024-01''"
    by (simp add: jan15_def digit_def)
  from mem k i x e n f y valid_jan15 valid_feb01 show ?thesis
    by simp
qed

text \<open>
  Claim C6 as stated fails for a transaction whose kind is neither income nor expense: the
  store reached by the request of kind \<^verbatim>\<open>'refund'\<close> has no expense transaction in
  January 2024, and the bucket reports expenses of 100.
\<close>

theorem expenses_include_other_kinds:
  "snd (index refund_db) = [(''2024-01'', \<lparr>income = 0, expenses = 100, savings = - 100\<rparr>)] \<and>
   month_total (\<lambda>x. x = ''expense'') ''2024-01'' (transactions refund_db) = 0"
  by (simp add: index_def refund_db_def monthly_statistics_def sorted_reverse_def
      set_savings_def stats_step_def month_total_def key_jan15)

subsection \<open>The order of the buckets\<close>

text \<open>
  The month keys of the statistics are strictly descending as strings and pairwise
  different, and they are exactly the keys of the months in which a transaction occurred.
\<close>

lemma index_keys_descending:
  "sorted_wrt (\<lambda>a b. a > b) (map fst (snd (index s))) \<and>
   distinct (map fst (snd (index s))) \<and>
   set (map fst (snd (index s))) = (\<lambda>t. strftime_Ym (date t)) ` set (transactions s)"
  unfolding index_def snd_conv
  using monthly_statistics_descending [of "transactions s"]
    monthly_statistics_distinct [of "transactions s"]
    monthly_statistics_keys [of "transactions s"]
  by blast

text \<open>
  Claim C7 on the code. The order of the keys as strings is the order of the months in
  time only among years of four digits (\<open>strftime_Ym_less_iff\<close>). With an expense dated
  0999-05-15 and one dated 2024-01-15, the bucket of May 999 comes first, before the
  bucket of January 2024: the oldest month is first, where the comment of line 62 and the
  claim say the most recent.
\<close>

theorem oldest_month_first:
  "valid_date may0999 \<and> valid_date jan15 \<and> year may0999 < year jan15 \<and>
   map fst (snd (index old_year_db)) = [''999-05'', ''2024-01'']"
  by (simp add: valid_may0999 valid_jan15 index_def old_year_db_def monthly_statistics_def
      sorted_reverse_def set_savings_def stats_step_def key_jan15 key_may0999)
    (simp add: may0999_def jan15_def)

section \<open>Sums over the buckets\<close>

lemma map_entry_sum:
  fixes g :: "'v \<Rightarrow> 'b::comm_monoid_add"
  assumes "\<And>m. g (f m) = g m + a" and "k \<in> fst ` set ms"
  shows "sum_list (map (g \<circ> snd) (AList.map_entry k f ms)) = sum_list (map (g \<circ> snd) ms) + a"
  using assms(2)
proof (induction ms)
  case Nil
  then show ?case by simp
next
  case (Cons p ps)
  show ?case
  proof (cases "fst p = k")
    case True
    then show ?thesis
      by (simp add: assms(1) ac_simps)
  next
    case False
    with Cons.prems have "k \<in> fst ` set ps"
      by auto
    then have "sum_list (map (g \<circ> snd) (AList.map_entry k f ps)) =
        sum_list (map (g \<circ> snd) ps) + a"
      by (rule Cons.IH)
    with False show ?thesis
      by (simp add: add.assoc comp_def)
  qed
qed

lemma stats_step_sum_income:
  fixes t :: "'a::comm_monoid_add transaction"
  shows "sum_list (map (income \<circ> snd) (stats_step t ms)) =
     sum_list (map (income \<circ> snd) ms) +
       (if transaction_type t = ''income'' then amount t else 0)"
proof -
  let ?k = "strftime_Ym (date t)"
  let ?ms1 = "if ?k \<notin> set (map fst ms)
              then ms @ [(?k, \<lparr>income = 0, expenses = 0, savings = 0\<rparr>)] else ms"
  have k: "?k \<in> fst ` set ?ms1" by auto
  have s: "sum_list (map (income \<circ> snd) ?ms1) = sum_list (map (income \<circ> snd) ms)"
    by simp
  show ?thesis
  proof (cases "transaction_type t = ''income''")
    case True
    have "sum_list (map (income \<circ> snd)
            (AList.map_entry ?k (\<lambda>m. m\<lparr>income := income m + amount t\<rparr>) ?ms1)) =
          sum_list (map (income \<circ> snd) ?ms1) + amount t"
      by (rule map_entry_sum [OF _ k]) simp
    with True s show ?thesis
      by (simp add: stats_step_def Let_def)
  next
    case False
    have "sum_list (map (income \<circ> snd)
            (AList.map_entry ?k (\<lambda>m. m\<lparr>expenses := expenses m + amount t\<rparr>) ?ms1)) =
          sum_list (map (income \<circ> snd) ?ms1) + 0"
      by (rule map_entry_sum [OF _ k]) simp
    with False s show ?thesis
      by (simp add: stats_step_def Let_def)
  qed
qed

lemma stats_step_sum_expenses:
  fixes t :: "'a::comm_monoid_add transaction"
  shows "sum_list (map (expenses \<circ> snd) (stats_step t ms)) =
     sum_list (map (expenses \<circ> snd) ms) +
       (if transaction_type t = ''income'' then 0 else amount t)"
proof -
  let ?k = "strftime_Ym (date t)"
  let ?ms1 = "if ?k \<notin> set (map fst ms)
              then ms @ [(?k, \<lparr>income = 0, expenses = 0, savings = 0\<rparr>)] else ms"
  have k: "?k \<in> fst ` set ?ms1" by auto
  have s: "sum_list (map (expenses \<circ> snd) ?ms1) = sum_list (map (expenses \<circ> snd) ms)"
    by simp
  show ?thesis
  proof (cases "transaction_type t = ''income''")
    case True
    have "sum_list (map (expenses \<circ> snd)
            (AList.map_entry ?k (\<lambda>m. m\<lparr>income := income m + amount t\<rparr>) ?ms1)) =
          sum_list (map (expenses \<circ> snd) ?ms1) + 0"
      by (rule map_entry_sum [OF _ k]) simp
    with True s show ?thesis
      by (simp add: stats_step_def Let_def)
  next
    case False
    have "sum_list (map (expenses \<circ> snd)
            (AList.map_entry ?k (\<lambda>m. m\<lparr>expenses := expenses m + amount t\<rparr>) ?ms1)) =
          sum_list (map (expenses \<circ> snd) ?ms1) + amount t"
      by (rule map_entry_sum [OF _ k]) simp
    with False s show ?thesis
      by (simp add: stats_step_def Let_def)
  qed
qed

lemma kind_total_snoc:
  "kind_total P (ts @ [t]) =
     kind_total P ts + (if P (transaction_type t) then amount t else 0)"
  by (simp add: kind_total_def)

lemma stats_loop_sum_income:
  fixes ts :: "'a::comm_monoid_add transaction list"
  shows "sum_list (map (income \<circ> snd) (fold stats_step ts [])) =
     kind_total (\<lambda>x. x = ''income'') ts"
proof (induction ts rule: rev_induct)
  case Nil
  then show ?case by (simp add: kind_total_def)
next
  case (snoc t ts)
  then show ?case
    by (simp only: fold_snoc stats_step_sum_income kind_total_snoc)
qed

lemma stats_loop_sum_expenses:
  fixes ts :: "'a::comm_monoid_add transaction list"
  shows "sum_list (map (expenses \<circ> snd) (fold stats_step ts [])) =
     kind_total (\<lambda>x. x \<noteq> ''income'') ts"
proof (induction ts rule: rev_induct)
  case Nil
  then show ?case by (simp add: kind_total_def)
next
  case (snoc t ts)
  have e: "(if transaction_type t = ''income'' then 0 else amount t) =
      (if transaction_type t \<noteq> ''income'' then amount t else 0)"
    by simp
  from snoc show ?case
    by (simp only: fold_snoc stats_step_sum_expenses kind_total_snoc e)
qed

lemma sorted_reverse_sum:
  fixes g :: "'v \<Rightarrow> 'b::comm_monoid_add"
  shows "sum_list (map (g \<circ> snd) (sorted_reverse items)) = sum_list (map (g \<circ> snd) items)"
proof -
  have "mset (map (g \<circ> snd) (sorted_reverse items)) = mset (map (g \<circ> snd) items)"
    by (simp add: sorted_reverse_mset)
  then show ?thesis
    by (metis sum_mset_sum_list)
qed

lemma set_savings_income: "map (income \<circ> snd) (set_savings ms) = map (income \<circ> snd) ms"
  by (induction ms) (auto simp: set_savings_def)

lemma set_savings_expenses: "map (expenses \<circ> snd) (set_savings ms) = map (expenses \<circ> snd) ms"
  by (induction ms) (auto simp: set_savings_def)

lemma monthly_statistics_sum_income:
  fixes ts :: "'a::ab_group_add transaction list"
  shows "sum_list (map (income \<circ> snd) (monthly_statistics ts)) =
     kind_total (\<lambda>x. x = ''income'') ts"
  by (simp only: monthly_statistics_def sorted_reverse_sum set_savings_income
      stats_loop_sum_income)

lemma monthly_statistics_sum_expenses:
  fixes ts :: "'a::ab_group_add transaction list"
  shows "sum_list (map (expenses \<circ> snd) (monthly_statistics ts)) =
     kind_total (\<lambda>x. x \<noteq> ''income'') ts"
  by (simp only: monthly_statistics_def sorted_reverse_sum set_savings_expenses
      stats_loop_sum_expenses)

lemma sum_list_single_key:
  fixes c :: "'b::comm_monoid_add"
  assumes "distinct ks" "a \<in> set ks"
  shows "(\<Sum>k\<leftarrow>ks. if a = k then c else 0) = c"
proof -
  have "(\<Sum>k\<leftarrow>ks. if a = k then c else 0) = (\<Sum>k\<in>set ks. if a = k then c else 0)"
    using assms(1) by (rule sum_list_distinct_conv_sum_set)
  also have "\<dots> = c"
    using assms(2) by simp
  finally show ?thesis .
qed

lemma mset_filter_by_key:
  assumes "distinct ks" "f ` set xs \<subseteq> set ks"
  shows "(\<Sum>k\<leftarrow>ks. mset (filter (\<lambda>x. f x = k \<and> P x) xs)) = mset (filter P xs)"
  using assms(2)
proof (induction xs)
  case Nil
  then show ?case by simp
next
  case (Cons x xs)
  then have fx: "f x \<in> set ks" and rest: "f ` set xs \<subseteq> set ks"
    by auto
  have "(\<Sum>k\<leftarrow>ks. mset (filter (\<lambda>y. f y = k \<and> P y) (x # xs))) =
        (\<Sum>k\<leftarrow>ks. (if f x = k then (if P x then {#x#} else {#}) else {#}) +
                   mset (filter (\<lambda>y. f y = k \<and> P y) xs))"
    by (intro arg_cong [where f = sum_list] map_cong) auto
  also have "\<dots> = (\<Sum>k\<leftarrow>ks. if f x = k then (if P x then {#x#} else {#}) else {#}) +
        (\<Sum>k\<leftarrow>ks. mset (filter (\<lambda>y. f y = k \<and> P y) xs))"
    by (rule sum_list_addf)
  also have "\<dots> = (if P x then {#x#} else {#}) + mset (filter P xs)"
    using sum_list_single_key [OF assms(1) fx, of "if P x then {#x#} else {#}"]
      Cons.IH [OF rest] by simp
  also have "\<dots> = mset (filter P (x # xs))"
    by simp
  finally show ?case .
qed

lemma index_income_fields:
  fixes s :: "'a::{zero,plus,minus} database"
  shows "map (income \<circ> snd) (snd (index s)) =
     map (\<lambda>k. month_total (\<lambda>x. x = ''income'') k (transactions s)) (map fst (snd (index s)))"
  unfolding map_map index_def snd_conv
  by (rule map_cong [OF refl]) (auto simp: monthly_statistics_mem)

lemma index_expenses_fields:
  fixes s :: "'a::{zero,plus,minus} database"
  shows "map (expenses \<circ> snd) (snd (index s)) =
     map (\<lambda>k. month_total (\<lambda>x. x \<noteq> ''income'') k (transactions s)) (map fst (snd (index s)))"
  unfolding map_map index_def snd_conv
  by (rule map_cong [OF refl]) (auto simp: monthly_statistics_mem)

lemma index_partition:
  "(\<Sum>k\<leftarrow>map fst (snd (index s)).
        mset (filter (\<lambda>t. strftime_Ym (date t) = k \<and> P t) (transactions s))) =
     mset (filter P (transactions s))"
  using index_keys_descending [of s] by (intro mset_filter_by_key) auto

text \<open>
  Claim C8, as amended. The buckets divide the transactions by month: every income
  transaction is counted in the income field of exactly one bucket and every transaction
  of another kind in the expenses field of exactly one bucket, and each field is the sum
  of its month's amounts, added to 0 in table order (the first four statements, which use
  no law of arithmetic). In exact arithmetic (the last three statements, about a store
  \<open>e\<close> whose amounts form an additive group) the income fields of all buckets add up to
  the sum of the amounts of all income transactions, and the expenses fields to the sum of
  the amounts of all transactions whose kind is not income; when every kind is income or
  expense, that is the sum of the amounts of all expense transactions.
\<close>

theorem aggregation_sums:
  fixes s :: "'a::{zero,plus,minus} database" and e :: "'b::ab_group_add database"
  shows "map (income \<circ> snd) (snd (index s)) =
       map (\<lambda>k. month_total (\<lambda>x. x = ''income'') k (transactions s))
         (map fst (snd (index s))) \<and>
     map (expenses \<circ> snd) (snd (index s)) =
       map (\<lambda>k. month_total (\<lambda>x. x \<noteq> ''income'') k (transactions s))
         (map fst (snd (index s))) \<and>
     (\<Sum>k\<leftarrow>map fst (snd (index s)).
        mset (filter (\<lambda>t. strftime_Ym (date t) = k \<and> transaction_type t = ''income'')
          (transactions s))) =
       mset (filter (\<lambda>t. transaction_type t = ''income'') (transactions s)) \<and>
     (\<Sum>k\<leftarrow>map fst (snd (index s)).
        mset (filter (\<lambda>t. strftime_Ym (date t) = k \<and> transaction_type t \<noteq> ''income'')
          (transactions s))) =
       mset (filter (\<lambda>t. transaction_type t \<noteq> ''income'') (transactions s)) \<and>
     sum_list (map (income \<circ> snd) (snd (index e))) =
       kind_total (\<lambda>x. x = ''income'') (transactions e) \<and>
     sum_list (map (expenses \<circ> snd) (snd (index e))) =
       kind_total (\<lambda>x. x \<noteq> ''income'') (transactions e) \<and>
     ((\<forall>t \<in> set (transactions e).
          transaction_type t = ''income'' \<or> transaction_type t = ''expense'') \<longrightarrow>
        sum_list (map (expenses \<circ> snd) (snd (index e))) =
          kind_total (\<lambda>x. x = ''expense'') (transactions e))"
proof (intro conjI impI)
  show "map (income \<circ> snd) (snd (index s)) =
       map (\<lambda>k. month_total (\<lambda>x. x = ''income'') k (transactions s))
         (map fst (snd (index s)))"
    by (rule index_income_fields)
next
  show "map (expenses \<circ> snd) (snd (index s)) =
       map (\<lambda>k. month_total (\<lambda>x. x \<noteq> ''income'') k (transactions s))
         (map fst (snd (index s)))"
    by (rule index_expenses_fields)
next
  show "(\<Sum>k\<leftarrow>map fst (snd (index s)).
        mset (filter (\<lambda>t. strftime_Ym (date t) = k \<and> transaction_type t = ''income'')
          (transactions s))) =
       mset (filter (\<lambda>t. transaction_type t = ''income'') (transactions s))"
    by (rule index_partition)
next
  show "(\<Sum>k\<leftarrow>map fst (snd (index s)).
        mset (filter (\<lambda>t. strftime_Ym (date t) = k \<and> transaction_type t \<noteq> ''income'')
          (transactions s))) =
       mset (filter (\<lambda>t. transaction_type t \<noteq> ''income'') (transactions s))"
    by (rule index_partition)
next
  show "sum_list (map (income \<circ> snd) (snd (index e))) =
       kind_total (\<lambda>x. x = ''income'') (transactions e)"
    unfolding index_def snd_conv by (rule monthly_statistics_sum_income)
next
  show x: "sum_list (map (expenses \<circ> snd) (snd (index e))) =
       kind_total (\<lambda>x. x \<noteq> ''income'') (transactions e)"
    unfolding index_def snd_conv by (rule monthly_statistics_sum_expenses)
  assume v: "\<forall>t \<in> set (transactions e).
          transaction_type t = ''income'' \<or> transaction_type t = ''expense''"
  have "filter (\<lambda>t. transaction_type t \<noteq> ''income'') (transactions e) =
        filter (\<lambda>t. transaction_type t = ''expense'') (transactions e)"
    using v by (intro filter_cong) auto
  then have "kind_total (\<lambda>x. x \<noteq> ''income'') (transactions e) =
      kind_total (\<lambda>x. x = ''expense'') (transactions e)"
    by (simp add: kind_total_def)
  with x show "sum_list (map (expenses \<circ> snd) (snd (index e))) =
          kind_total (\<lambda>x. x = ''expense'') (transactions e)"
    by simp
qed

text \<open>The theorem at the sixth scenario of the specification.\<close>

theorem aggregation_sums_witness:
  "map (income \<circ> snd) (snd (index two_month_db)) = [50, 0] \<and>
   map (\<lambda>k. month_total (\<lambda>x. x = ''income'') k (transactions two_month_db))
     [''2024-02'', ''2024-01''] = [50, 0] \<and>
   sum_list (map (income \<circ> snd) (snd (index two_month_db))) = 50 \<and>
   kind_total (\<lambda>x. x = ''income'') (transactions two_month_db) = 50 \<and>
   sum_list (map (expenses \<circ> snd) (snd (index two_month_db))) = 100 \<and>
   kind_total (\<lambda>x. x = ''expense'') (transactions two_month_db) = 100"
proof -
  have allv: "\<forall>t \<in> set (transactions two_month_db).
      transaction_type t = ''income'' \<or> transaction_type t = ''expense''"
    by (simp add: two_month_db_def)
  have i: "kind_total (\<lambda>x. x = ''income'') (transactions two_month_db) = 50"
    and x: "kind_total (\<lambda>x. x = ''expense'') (transactions two_month_db) = 100"
    by (simp_all add: kind_total_def two_month_db_def)
  have f: "map (income \<circ> snd) (snd (index two_month_db)) = [50, 0]"
    and k: "map fst (snd (index two_month_db)) = [''2024-02'', ''2024-01'']"
    by (simp_all add: index_two_month_db)
  note th = aggregation_sums [of two_month_db two_month_db]
  from th have "map (income \<circ> snd) (snd (index two_month_db)) =
       map (\<lambda>k. month_total (\<lambda>x. x = ''income'') k (transactions two_month_db))
         (map fst (snd (index two_month_db)))"
    by blast
  then have a: "map (\<lambda>k. month_total (\<lambda>x. x = ''income'') k (transactions two_month_db))
     [''2024-02'', ''2024-01''] = [50, 0]"
    unfolding f k by simp
  from th have b: "sum_list (map (income \<circ> snd) (snd (index two_month_db))) =
       kind_total (\<lambda>x. x = ''income'') (transactions two_month_db)"
    by blast
  from th allv
  have c: "sum_list (map (expenses \<circ> snd) (snd (index two_month_db))) =
          kind_total (\<lambda>x. x = ''expense'') (transactions two_month_db)"
    by blast
  from f a b c i x show ?thesis
    by simp
qed

text \<open>
  Claim C8 as stated fails for a transaction whose kind is neither income nor expense: the
  store reached by the request of kind \<^verbatim>\<open>'transfer'\<close> has no expense transaction, and the
  expenses fields add up to 50.
\<close>

theorem expenses_sum_includes_other_kinds:
  "sum_list (map (expenses \<circ> snd) (snd (index transfer_db))) = 50 \<and>
   kind_total (\<lambda>x. x = ''expense'') (transactions transfer_db) = 0"
  by (simp add: index_def transfer_db_def monthly_statistics_def sorted_reverse_def
      set_savings_def stats_step_def kind_total_def key_jan15)

section \<open>Deleting a card\<close>

lemma query_get_filter_same:
  "query_get (filter (\<lambda>r. cid r \<noteq> k) rows) k = None"
  by (induction rows) (auto simp: query_get_def)

lemma query_get_filter_other:
  "k' \<noteq> k \<Longrightarrow> query_get (filter (\<lambda>r. cid r \<noteq> k) rows) k' = query_get rows k'"
  by (induction rows) (auto simp: query_get_def)

lemma delete_card_found:
  assumes "query_get (cards s) k = Some c"
  shows "delete_card s k =
     Inr (s\<lparr>cards := filter (\<lambda>r. cid r \<noteq> k) (cards s),
            transactions := filter (\<lambda>t. card_id t \<noteq> k) (transactions s)\<rparr>)"
  using assms query_get_cid [OF assms] by (simp add: delete_card_def)

text \<open>
  Claim C9. Deleting a card of the store succeeds and removes all of its transactions: the
  transaction table afterwards holds exactly the transactions of the other cards, in their
  order, and the monthly statistics computed from the new store are those of the other
  cards' transactions alone. The card is gone, and every other card is as before.
\<close>

theorem delete_card_cascade:
  fixes s :: "'a::{zero,plus,minus} database"
  assumes "query_get (cards s) k = Some c"
  shows "\<exists>s'. delete_card s k = Inr s' \<and>
     (\<forall>t \<in> set (transactions s'). card_id t \<noteq> k) \<and>
     transactions s' = filter (\<lambda>t. card_id t \<noteq> k) (transactions s) \<and>
     snd (index s') = monthly_statistics (filter (\<lambda>t. card_id t \<noteq> k) (transactions s)) \<and>
     query_get (cards s') k = None \<and>
     (\<forall>k'. k' \<noteq> k \<longrightarrow> query_get (cards s') k' = query_get (cards s) k')"
  unfolding delete_card_found [OF assms]
  by (simp add: index_def query_get_filter_same query_get_filter_other)

text \<open>The theorem at a store with two cards, each with one expense.\<close>

theorem delete_card_cascade_witness:
  "query_get (cards two_card_db) 1 = Some (debit_card\<lparr>balance := 900\<rparr>) \<and>
   (\<exists>s'. delete_card two_card_db 1 = Inr s' \<and>
      transactions s' =
        [\<lparr>tid = 2, card_id = 2, transaction_type = ''expense'', amount = 200,
          description = ''Test Online Shopping'', category = ''Shopping'', date = feb01\<rparr>] \<and>
      snd (index s') = [(''2024-02'', \<lparr>income = 0, expenses = 200, savings = - 200\<rparr>)] \<and>
      query_get (cards s') 1 = None \<and>
      query_get (cards s') 2 = Some (credit_card\<lparr>cid := 2, balance := 200\<rparr>))"
proof -
  have h: "query_get (cards two_card_db) 1 = Some (debit_card\<lparr>balance := 900\<rparr>)"
    by (simp add: two_card_db_def debit_card_def query_get_def)
  have f: "filter (\<lambda>t. card_id t \<noteq> 1) (transactions two_card_db) =
        [\<lparr>tid = 2, card_id = 2, transaction_type = ''expense'', amount = 200,
          description = ''Test Online Shopping'', category = ''Shopping'', date = feb01\<rparr>]"
    by (simp add: two_card_db_def)
  have m: "monthly_statistics
        [\<lparr>tid = 2, card_id = 2, transaction_type = ''expense'', amount = 200::real,
          description = ''Test Online Shopping'', category = ''Shopping'', date = feb01\<rparr>] =
      [(''2024-02'', \<lparr>income = 0, expenses = 200, savings = - 200\<rparr>)]"
    by (simp add: monthly_statistics_def sorted_reverse_def set_savings_def stats_step_def
        key_feb01)
  have g: "query_get (cards two_card_db) 2 = Some (credit_card\<lparr>cid := 2, balance := 200\<rparr>)"
    by (simp add: two_card_db_def debit_card_def credit_card_def query_get_def)
  from delete_card_cascade [OF h] obtain s' where s':
    "delete_card two_card_db 1 = Inr s'"
    "transactions s' = filter (\<lambda>t. card_id t \<noteq> 1) (transactions two_card_db)"
    "snd (index s') = monthly_statistics (filter (\<lambda>t. card_id t \<noteq> 1) (transactions two_card_db))"
    "query_get (cards s') 1 = None"
    "\<forall>k'. k' \<noteq> 1 \<longrightarrow> query_get (cards s') k' = query_get (cards two_card_db) k'"
    by blast
  from s'(5) have "query_get (cards s') 2 = query_get (cards two_card_db) 2"
    by simp
  with s'(1-4) have "delete_card two_card_db 1 = Inr s' \<and>
      transactions s' =
        [\<lparr>tid = 2, card_id = 2, transaction_type = ''expense'', amount = 200,
          description = ''Test Online Shopping'', category = ''Shopping'', date = feb01\<rparr>] \<and>
      snd (index s') = [(''2024-02'', \<lparr>income = 0, expenses = 200, savings = - 200\<rparr>)] \<and>
      query_get (cards s') 1 = None \<and>
      query_get (cards s') 2 = Some (credit_card\<lparr>cid := 2, balance := 200\<rparr>)"
    unfolding f m g by simp
  with h show ?thesis by blast
qed

section \<open>Kinds outside the table, in the ledger and in the statistics\<close>

lemma month_total_absent:
  assumes "k \<notin> (\<lambda>t. strftime_Ym (date t)) ` set ts"
  shows "month_total P k ts = 0"
proof -
  from assms have "filter (\<lambda>t. strftime_Ym (date t) = k \<and> P (transaction_type t)) ts = []"
    by (auto simp: filter_empty_conv)
  then show ?thesis
    by (simp add: month_total_def)
qed

lemma bucket_expenses_before:
  fixes ts :: "'a::ab_group_add transaction list"
  shows "(case map_of (monthly_statistics ts) k of None \<Rightarrow> 0 | Some m \<Rightarrow> expenses m) =
     month_total (\<lambda>x. x \<noteq> ''income'') k ts"
  by (simp add: monthly_statistics_map_of month_total_absent)

lemma bucket_income_before:
  fixes ts :: "'a::ab_group_add transaction list"
  shows "(case map_of (monthly_statistics ts) k of None \<Rightarrow> 0 | Some m \<Rightarrow> income m) =
     month_total (\<lambda>x. x = ''income'') k ts"
  by (simp add: monthly_statistics_map_of month_total_absent)

text \<open>
  Claim C10. A request for an existing card whose kind string is neither \<^verbatim>\<open>'income'\<close> nor
  \<^verbatim>\<open>'expense'\<close> is recorded, and the ledger applies the income delta: the balance grows by
  the amount on a debit card and shrinks by it on any other card. The monthly statistics
  count the same transaction under expenses: in the bucket of its month the expenses grow
  by the amount and the income stays as it was (both taken as 0 when the month had no
  bucket before).
\<close>

theorem unknown_kind_classified_oppositely:
  fixes s :: "'a::ab_group_add database"
  assumes "query_get (cards s) k = Some c"
    and "tk \<noteq> ''income''" and "tk \<noteq> ''expense''"
  shows "\<exists>s'. add_transaction s k tk a de ca dt = Inr s' \<and>
     query_get (cards s') k =
       Some (c\<lparr>balance := (if card_type c = ''debit'' then balance c + a else balance c - a)\<rparr>) \<and>
     map_option expenses (map_of (snd (index s')) (strftime_Ym dt)) =
       Some ((case map_of (snd (index s)) (strftime_Ym dt) of
                None \<Rightarrow> 0 | Some m \<Rightarrow> expenses m) + a) \<and>
     map_option income (map_of (snd (index s')) (strftime_Ym dt)) =
       Some (case map_of (snd (index s)) (strftime_Ym dt) of
                None \<Rightarrow> 0 | Some m \<Rightarrow> income m)"
proof -
  let ?t = "\<lparr>tid = next_tid (transactions s), card_id = k, transaction_type = tk,
             amount = a, description = de, category = ca, date = dt\<rparr>"
  obtain s' where s': "add_transaction s k tk a de ca dt = Inr s'"
    using add_transaction_found [OF assms(1)] by blast
  have ts: "transactions s' = transactions s @ [?t]"
    using s' unfolding add_transaction_found [OF assms(1)] by auto
  have bal: "query_get (cards s') k =
       Some (c\<lparr>balance := (if card_type c = ''debit'' then balance c + a else balance c - a)\<rparr>)"
    using add_transaction_get [OF assms(1) s'] assms(3) by (simp add: ledger_balance_def)
  have inkeys: "strftime_Ym dt \<in> (\<lambda>t. strftime_Ym (date t)) ` set (transactions s @ [?t])"
    by simp
  have after: "map_of (monthly_statistics (transactions s @ [?t])) (strftime_Ym dt) =
      Some \<lparr>income = month_total (\<lambda>x. x = ''income'') (strftime_Ym dt) (transactions s),
            expenses = month_total (\<lambda>x. x \<noteq> ''income'') (strftime_Ym dt) (transactions s) + a,
            savings = month_total (\<lambda>x. x = ''income'') (strftime_Ym dt) (transactions s) -
              (month_total (\<lambda>x. x \<noteq> ''income'') (strftime_Ym dt) (transactions s) + a)\<rparr>"
    unfolding monthly_statistics_map_of if_P [OF inkeys]
    using assms(2) by (simp add: month_total_snoc)
  show ?thesis
    using s' bal
    by (simp add: index_def ts after bucket_expenses_before bucket_income_before)
qed

text \<open>The theorem at a request of kind \<^verbatim>\<open>'refund'\<close> for the debit card.\<close>

theorem unknown_kind_classified_oppositely_witness:
  "query_get (cards debit_db) 1 = Some debit_card \<and>
   ''refund'' \<noteq> ''income'' \<and> ''refund'' \<noteq> ''expense'' \<and>
   (\<exists>s'. add_transaction debit_db 1 ''refund'' 100 ''Refund'' ''Other'' jan15 = Inr s' \<and>
      query_get (cards s') 1 = Some (debit_card\<lparr>balance := 1100\<rparr>) \<and>
      map_option expenses (map_of (snd (index s')) ''2024-01'') = Some 100 \<and>
      map_option income (map_of (snd (index s')) ''2024-01'') = Some 0)"
proof -
  have h: "query_get (cards debit_db) 1 = Some debit_card"
    by (simp add: debit_db_def debit_card_def query_get_def)
  have n: "''refund'' \<noteq> ''income''" "''refund'' \<noteq> ''expense''"
    by simp_all
  have b: "(if card_type debit_card = ''debit'' then balance debit_card + 100
            else balance debit_card - 100) = 1100"
    by (simp add: debit_card_def)
  have e: "snd (index debit_db) = []"
    by (simp add: index_def debit_db_def monthly_statistics_def sorted_reverse_def
        set_savings_def)
  from unknown_kind_classified_oppositely [OF h n, of 100 "''Refund''" "''Other''" jan15]
  have "\<exists>s'. add_transaction debit_db 1 ''refund'' 100 ''Refund'' ''Other'' jan15 = Inr s' \<and>
      query_get (cards s') 1 = Some (debit_card\<lparr>balance := 1100\<rparr>) \<and>
      map_option expenses (map_of (snd (index s')) ''2024-01'') = Some 100 \<and>
      map_option income (map_of (snd (index s')) ''2024-01'') = Some 0"
    unfolding b e key_jan15 by simp
  with h n show ?thesis by blast
qed

end
